theory Spec2Isabelle
  imports Complex_Main "HOL-Library.Word"
begin

section \<open>The interpolable look-up table\<close>

text \<open>
  A shallow embedding of the two C++ classes of the repository:
  \<^verbatim>\<open>InterpolableLUT\<close> (src/Cpp/InterpolableLUT.cpp) and its older sibling
  \<^verbatim>\<open>InterpolateLUT\<close>.

  Modelling decisions.
  \<^item> A \<^verbatim>\<open>double\<close> is a \<^typ>\<open>real\<close> and the four operations of
    \<^verbatim>\<open>linear_interpolate\<close> are exact. The code rounds each of them, and an operation
    whose result leaves the range of the finite doubles gives an infinity or a NaN.
    The comparisons of the bracket search are the same in the model and in the code.
    Hence a property below is stated only where it does not depend on how the
    arithmetic rounds: either it follows the control flow alone, or it is about
    inputs at which every operation of the code is exact.
  \<^item> The fields \<^verbatim>\<open>x_len\<close> and \<^verbatim>\<open>y_len\<close> are C \<^verbatim>\<open>int\<close>s (32 bits) handed to the
    constructor independently of the vectors, so they are \<^typ>\<open>int\<close>s here and may
    disagree with the lengths of the vectors or be negative. The only arithmetic on
    them is \<^verbatim>\<open>list_len - 1\<close>, which overflows when \<open>list_len\<close> is \<open>INT_MIN\<close>: a
    signed overflow is undefined behaviour, and an error in the model.
  \<^item> Loop counters start at 0 and only grow: they are \<^typ>\<open>nat\<close>s.
  \<^item> \<^verbatim>\<open>std::vector::operator[]\<close> outside the bounds of the vector is undefined
    behaviour; the model returns the error \<open>Undefined_Behaviour\<close> there, as for a
    signed overflow, instead of a value. A division by zero in \<^verbatim>\<open>linear_interpolate\<close> is an error value too.
  \<^item> A function of the source that throws or has undefined behaviour returns
    \<open>Inl\<close> of an error; a function that returns normally returns \<open>Inr\<close>.
\<close>

subsection \<open>Data\<close>

datatype error =
    Undefined_Behaviour   \<comment> \<open>a vector read outside its bounds, or a signed overflow\<close>
  | Division_By_Zero      \<comment> \<open>\<^verbatim>\<open>x1 == x0\<close> in \<^verbatim>\<open>linear_interpolate\<close>\<close>
  | Length_Error          \<comment> \<open>\<^verbatim>\<open>std::vector<double> v(n)\<close> with a negative \<^verbatim>\<open>n\<close>\<close>
  | Out_Of_Range          \<comment> \<open>\<^verbatim>\<open>std::out_of_range\<close>, thrown by \<^verbatim>\<open>operator[]\<close>\<close>

record lut =
  x_len :: int
  y_len :: int
  table :: "real list list"
  x_ref :: "real list"
  y_ref :: "real list"

text \<open>The bounds of a C \<^verbatim>\<open>int\<close> of 32 bits.\<close>

definition INT_MIN :: int where
  "INT_MIN = - 2147483648"

definition INT_MAX :: int where
  "INT_MAX = 2147483647"

text \<open>The constructor copies its five arguments into the fields and checks nothing.\<close>

definition InterpolableLUT :: "real list list \<Rightarrow> real list \<Rightarrow> real list \<Rightarrow> int \<Rightarrow> int \<Rightarrow> lut" where
  "InterpolableLUT tbl xr yr xl yl =
     \<lparr>x_len = xl, y_len = yl, table = tbl, x_ref = xr, y_ref = yr\<rparr>"

text \<open>\<^verbatim>\<open>v[i]\<close> on a \<^verbatim>\<open>std::vector\<close>.\<close>

definition vec_at :: "'a list \<Rightarrow> nat \<Rightarrow> error + 'a" where
  "vec_at v i = (if i < length v then Inr (v ! i) else Inl Undefined_Behaviour)"

subsection \<open>\<^verbatim>\<open>InterpolableLUT::linear_interpolate\<close>\<close>

text \<open>
  The formula of the source in exact arithmetic, with the division by zero as an
  error. The code computes the same expression in \<^verbatim>\<open>double\<close>, left to right, each
  operation rounded.
\<close>

definition linear_interpolate :: "real \<Rightarrow> real \<Rightarrow> real \<Rightarrow> real \<Rightarrow> real \<Rightarrow> error + real" where
  "linear_interpolate x0 y0 x1 y1 x =
     (if x1 - x0 = 0 then Inl Division_By_Zero
      else Inr (y0 + (y1 - y0) * (x - x0) / (x1 - x0)))"

subsection \<open>\<^verbatim>\<open>InterpolableLUT::find_nearest_indexes\<close>\<close>

text \<open>
  The loop \<^verbatim>\<open>for (int i = 0; i < list_len-1; i++)\<close>, from the counter \<open>i\<close> on. The
  condition computes \<^verbatim>\<open>list_len-1\<close> on \<^verbatim>\<open>int\<close>, which overflows when the result
  would be below \<open>INT_MIN\<close>; the counter stays below \<open>list_len - 1\<close> and cannot
  overflow. The \<^verbatim>\<open>&&\<close> reads \<^verbatim>\<open>list[i+1]\<close> only when \<^verbatim>\<open>list[i] <= search_val\<close>. The result
  \<open>Some (lower, upper)\<close> stands for \<^verbatim>\<open>true\<close> with the two indexes written through
  the pointers, \<open>None\<close> for \<^verbatim>\<open>false\<close> (the pointers are then not written, and
  \<^verbatim>\<open>find\<close> does not read them).
\<close>

function find_nearest_loop :: "real list \<Rightarrow> int \<Rightarrow> real \<Rightarrow> nat \<Rightarrow> error + (nat \<times> nat) option" where
  "find_nearest_loop list list_len search_val i =
     (if list_len - 1 < INT_MIN then Inl Undefined_Behaviour
      else if int i < list_len - 1 then
        (case vec_at list i of
           Inl e \<Rightarrow> Inl e
         | Inr a \<Rightarrow>
             if a \<le> search_val then
               (case vec_at list (i + 1) of
                  Inl e \<Rightarrow> Inl e
                | Inr b \<Rightarrow>
                    if b > search_val then Inr (Some (i, i + 1))
                    else find_nearest_loop list list_len search_val (i + 1))
             else find_nearest_loop list list_len search_val (i + 1))
      else Inr None)"
  by pat_completeness auto
termination
  by (relation "measure (\<lambda>(list, list_len, search_val, i). nat (list_len - 1 - int i))") auto

declare find_nearest_loop.simps [simp del]

definition find_nearest_indexes :: "real list \<Rightarrow> int \<Rightarrow> real \<Rightarrow> error + (nat \<times> nat) option" where
  "find_nearest_indexes list list_len search_val = find_nearest_loop list list_len search_val 0"

subsection \<open>\<^verbatim>\<open>InterpolableLUT::find\<close>\<close>

text \<open>
  One cell of the synthetic row: the call of \<^verbatim>\<open>linear_interpolate\<close> in the body of
  the first loop of \<^verbatim>\<open>find\<close>, with its four vector reads.
\<close>

definition interpolated_value :: "lut \<Rightarrow> nat \<Rightarrow> nat \<Rightarrow> real \<Rightarrow> nat \<Rightarrow> error + real" where
  "interpolated_value l y_lower_idx y_upper_idx y_input i =
     (case vec_at (y_ref l) y_lower_idx of Inl e \<Rightarrow> Inl e | Inr x0 \<Rightarrow>
     (case vec_at (table l) y_lower_idx of Inl e \<Rightarrow> Inl e | Inr row0 \<Rightarrow>
     (case vec_at row0 i of Inl e \<Rightarrow> Inl e | Inr y0 \<Rightarrow>
     (case vec_at (y_ref l) y_upper_idx of Inl e \<Rightarrow> Inl e | Inr x1 \<Rightarrow>
     (case vec_at (table l) y_upper_idx of Inl e \<Rightarrow> Inl e | Inr row1 \<Rightarrow>
     (case vec_at row1 i of Inl e \<Rightarrow> Inl e | Inr y1 \<Rightarrow>
        linear_interpolate x0 y0 x1 y1 y_input))))))"

text \<open>
  The loop \<^verbatim>\<open>for (int i = 0; i < x_len; i++)\<close> that fills
  \<^verbatim>\<open>interpolated_y_values_at_x\<close>, from the counter \<open>i\<close> on; \<open>row\<close> is the vector
  as filled so far.
\<close>

function interpolate_loop :: "lut \<Rightarrow> nat \<Rightarrow> nat \<Rightarrow> real \<Rightarrow> nat \<Rightarrow> real list \<Rightarrow> error + real list" where
  "interpolate_loop l y_lower_idx y_upper_idx y_input i row =
     (if int i < x_len l then
        (case interpolated_value l y_lower_idx y_upper_idx y_input i of
           Inl e \<Rightarrow> Inl e
         | Inr v \<Rightarrow>
             if i < length row
             then interpolate_loop l y_lower_idx y_upper_idx y_input (i + 1) (row[i := v])
             else Inl Undefined_Behaviour)
      else Inr row)"
  by pat_completeness auto
termination
  by (relation "measure (\<lambda>(l, y_lower_idx, y_upper_idx, y_input, i, row). nat (x_len l - int i))") auto

declare interpolate_loop.simps [simp del]

text \<open>
  The declaration \<^verbatim>\<open>std::vector<double> interpolated_y_values_at_x(x_len)\<close> followed
  by the loop. The vector starts as \<open>x_len\<close> zeros; a negative \<open>x_len\<close> becomes a size
  beyond \<^verbatim>\<open>max_size()\<close> and the constructor throws.
\<close>

definition interpolated_y_values_at_x :: "lut \<Rightarrow> nat \<Rightarrow> nat \<Rightarrow> real \<Rightarrow> error + real list" where
  "interpolated_y_values_at_x l y_lower_idx y_upper_idx y_input =
     (if x_len l < 0 then Inl Length_Error
      else interpolate_loop l y_lower_idx y_upper_idx y_input 0 (replicate (nat (x_len l)) 0))"

text \<open>The second call of \<^verbatim>\<open>linear_interpolate\<close> in \<^verbatim>\<open>find\<close>, with its four vector reads.\<close>

definition final_interpolation :: "lut \<Rightarrow> real list \<Rightarrow> nat \<Rightarrow> nat \<Rightarrow> real \<Rightarrow> error + real" where
  "final_interpolation l row x_lower_idx x_upper_idx x_input =
     (case vec_at row x_lower_idx of Inl e \<Rightarrow> Inl e | Inr x0 \<Rightarrow>
     (case vec_at (x_ref l) x_lower_idx of Inl e \<Rightarrow> Inl e | Inr y0 \<Rightarrow>
     (case vec_at row x_upper_idx of Inl e \<Rightarrow> Inl e | Inr x1 \<Rightarrow>
     (case vec_at (x_ref l) x_upper_idx of Inl e \<Rightarrow> Inl e | Inr y1 \<Rightarrow>
        linear_interpolate x0 y0 x1 y1 x_input))))"

definition InterpolableLUT_find :: "lut \<Rightarrow> real \<Rightarrow> real \<Rightarrow> error + real" where
  "InterpolableLUT_find l x_input y_input =
     (case find_nearest_indexes (y_ref l) (y_len l) y_input of
        Inl e \<Rightarrow> Inl e
      | Inr None \<Rightarrow> Inr x_input
      | Inr (Some (y_lower_idx, y_upper_idx)) \<Rightarrow>
          (case interpolated_y_values_at_x l y_lower_idx y_upper_idx y_input of
             Inl e \<Rightarrow> Inl e
           | Inr row \<Rightarrow>
               (case find_nearest_indexes row (x_len l) x_input of
                  Inl e \<Rightarrow> Inl e
                | Inr None \<Rightarrow> Inr x_input
                | Inr (Some (x_lower_idx, x_upper_idx)) \<Rightarrow>
                    final_interpolation l row x_lower_idx x_upper_idx x_input)))"

subsection \<open>\<^verbatim>\<open>InterpolableLUT::getYRef\<close> and \<^verbatim>\<open>InterpolableLUT::operator[]\<close>\<close>

definition getYRef :: "lut \<Rightarrow> real list" where
  "getYRef l = y_ref l"

text \<open>
  The index is a \<^verbatim>\<open>size_t\<close>, taken as 64 bits wide. In \<^verbatim>\<open>row >= y_len\<close> the
  \<^verbatim>\<open>int\<close> \<open>y_len\<close> is converted to \<^verbatim>\<open>size_t\<close>, that is taken modulo \<open>2 ^ 64\<close>.
\<close>

definition InterpolableLUT_operator_index :: "lut \<Rightarrow> 64 word \<Rightarrow> error + real list" where
  "InterpolableLUT_operator_index l row =
     (if row \<ge> word_of_int (y_len l) then Inl Out_Of_Range
      else vec_at (table l) (unat row))"

subsection \<open>The example of the source\<close>

text \<open>
  The object \<^verbatim>\<open>lutPh\<close> built in \<^verbatim>\<open>example()\<close>: the pH of seven buffers at twelve
  temperatures, with \<^verbatim>\<open>NUM_PH_POINTS = 7\<close> and \<^verbatim>\<open>NUM_TEMP_POINTS = 12\<close>.
\<close>

definition temp_points :: "real list" where
  "temp_points = [0, 5, 10, 15, 20, 25, 30, 35, 40, 45, 50, 55]"

definition ph_values_at_25 :: "real list" where
  "ph_values_at_25 = [1.68, 4.01, 6.86, 7.00, 9.18, 10.01, 12.46]"

definition ph_values :: "real list list" where
  "ph_values =
    [[1.67, 4.01, 6.98, 7.12, 9.46, 10.32, 13.47],
     [1.67, 4.01, 6.95, 7.09, 9.39, 10.25, 13.25],
     [1.67, 4.00, 6.92, 7.06, 9.32, 10.18, 13.03],
     [1.67, 4.00, 6.90, 7.04, 9.27, 10.12, 12.83],
     [1.68, 4.00, 6.88, 7.02, 9.22, 10.06, 12.64],
     [1.68, 4.01, 6.86, 7.00, 9.18, 10.01, 12.46],
     [1.69, 4.01, 6.85, 6.98, 9.14,  9.97, 12.29],
     [1.69, 4.02, 6.84, 6.98, 9.10,  9.93, 12.14],
     [1.70, 4.03, 6.84, 6.97, 9.07,  9.89, 11.99],
     [1.70, 4.04, 6.83, 6.97, 9.04,  9.86, 11.86],
     [1.71, 4.06, 6.83, 6.97, 9.01,  9.83, 11.73],
     [1.72, 4.08, 6.83, 6.97, 8.99,  9.81, 11.61]]"

definition lutPh :: lut where
  "lutPh = InterpolableLUT ph_values ph_values_at_25 temp_points 7 12"

text \<open>A table of two rows and two columns, small enough to trace by hand.\<close>

definition small_lut :: lut where
  "small_lut = InterpolableLUT [[1, 2], [3, 4]] [10, 20] [0, 1] 2 2"

subsection \<open>The class \<^verbatim>\<open>InterpolateLUT\<close>\<close>

text \<open>
  The sibling class has the same five fields and the same constructor, so its objects
  are values of the record \<^typ>\<open>lut\<close> too. It declares two overloads of
  \<^verbatim>\<open>linear_interpolate\<close>, on \<^verbatim>\<open>int\<close> and on \<^verbatim>\<open>double\<close>; both calls in its
  \<^verbatim>\<open>find\<close> pass five \<^verbatim>\<open>double\<close>s, which selects the \<^verbatim>\<open>double\<close> overload as an
  exact match. That overload is the one modelled.
\<close>

definition InterpolateLUT :: "real list list \<Rightarrow> real list \<Rightarrow> real list \<Rightarrow> int \<Rightarrow> int \<Rightarrow> lut" where
  "InterpolateLUT tbl xr yr xl yl =
     \<lparr>x_len = xl, y_len = yl, table = tbl, x_ref = xr, y_ref = yr\<rparr>"

definition InterpolateLUT_linear_interpolate :: "real \<Rightarrow> real \<Rightarrow> real \<Rightarrow> real \<Rightarrow> real \<Rightarrow> error + real" where
  "InterpolateLUT_linear_interpolate x0 y0 x1 y1 x =
     (if x1 - x0 = 0 then Inl Division_By_Zero
      else Inr (y0 + (y1 - y0) * (x - x0) / (x1 - x0)))"

function InterpolateLUT_find_nearest_loop :: "real list \<Rightarrow> int \<Rightarrow> real \<Rightarrow> nat \<Rightarrow> error + (nat \<times> nat) option" where
  "InterpolateLUT_find_nearest_loop list list_len search_val i =
     (if list_len - 1 < INT_MIN then Inl Undefined_Behaviour
      else if int i < list_len - 1 then
        (case vec_at list i of
           Inl e \<Rightarrow> Inl e
         | Inr a \<Rightarrow>
             if a \<le> search_val then
               (case vec_at list (i + 1) of
                  Inl e \<Rightarrow> Inl e
                | Inr b \<Rightarrow>
                    if b > search_val then Inr (Some (i, i + 1))
                    else InterpolateLUT_find_nearest_loop list list_len search_val (i + 1))
             else InterpolateLUT_find_nearest_loop list list_len search_val (i + 1))
      else Inr None)"
  by pat_completeness auto
termination
  by (relation "measure (\<lambda>(list, list_len, search_val, i). nat (list_len - 1 - int i))") auto

declare InterpolateLUT_find_nearest_loop.simps [simp del]

definition InterpolateLUT_find_nearest_indexes :: "real list \<Rightarrow> int \<Rightarrow> real \<Rightarrow> error + (nat \<times> nat) option" where
  "InterpolateLUT_find_nearest_indexes list list_len search_val =
     InterpolateLUT_find_nearest_loop list list_len search_val 0"

definition InterpolateLUT_interpolated_value :: "lut \<Rightarrow> nat \<Rightarrow> nat \<Rightarrow> real \<Rightarrow> nat \<Rightarrow> error + real" where
  "InterpolateLUT_interpolated_value l y_lower_idx y_upper_idx y_input i =
     (case vec_at (y_ref l) y_lower_idx of Inl e \<Rightarrow> Inl e | Inr x0 \<Rightarrow>
     (case vec_at (table l) y_lower_idx of Inl e \<Rightarrow> Inl e | Inr row0 \<Rightarrow>
     (case vec_at row0 i of Inl e \<Rightarrow> Inl e | Inr y0 \<Rightarrow>
     (case vec_at (y_ref l) y_upper_idx of Inl e \<Rightarrow> Inl e | Inr x1 \<Rightarrow>
     (case vec_at (table l) y_upper_idx of Inl e \<Rightarrow> Inl e | Inr row1 \<Rightarrow>
     (case vec_at row1 i of Inl e \<Rightarrow> Inl e | Inr y1 \<Rightarrow>
        InterpolateLUT_linear_interpolate x0 y0 x1 y1 y_input))))))"

function InterpolateLUT_interpolate_loop :: "lut \<Rightarrow> nat \<Rightarrow> nat \<Rightarrow> real \<Rightarrow> nat \<Rightarrow> real list \<Rightarrow> error + real list" where
  "InterpolateLUT_interpolate_loop l y_lower_idx y_upper_idx y_input i row =
     (if int i < x_len l then
        (case InterpolateLUT_interpolated_value l y_lower_idx y_upper_idx y_input i of
           Inl e \<Rightarrow> Inl e
         | Inr v \<Rightarrow>
             if i < length row
             then InterpolateLUT_interpolate_loop l y_lower_idx y_upper_idx y_input (i + 1) (row[i := v])
             else Inl Undefined_Behaviour)
      else Inr row)"
  by pat_completeness auto
termination
  by (relation "measure (\<lambda>(l, y_lower_idx, y_upper_idx, y_input, i, row). nat (x_len l - int i))") auto

declare InterpolateLUT_interpolate_loop.simps [simp del]

definition InterpolateLUT_interpolated_y_values_at_x :: "lut \<Rightarrow> nat \<Rightarrow> nat \<Rightarrow> real \<Rightarrow> error + real list" where
  "InterpolateLUT_interpolated_y_values_at_x l y_lower_idx y_upper_idx y_input =
     (if x_len l < 0 then Inl Length_Error
      else InterpolateLUT_interpolate_loop l y_lower_idx y_upper_idx y_input 0
             (replicate (nat (x_len l)) 0))"

definition InterpolateLUT_final_interpolation :: "lut \<Rightarrow> real list \<Rightarrow> nat \<Rightarrow> nat \<Rightarrow> real \<Rightarrow> error + real" where
  "InterpolateLUT_final_interpolation l row x_lower_idx x_upper_idx x_input =
     (case vec_at row x_lower_idx of Inl e \<Rightarrow> Inl e | Inr x0 \<Rightarrow>
     (case vec_at (x_ref l) x_lower_idx of Inl e \<Rightarrow> Inl e | Inr y0 \<Rightarrow>
     (case vec_at row x_upper_idx of Inl e \<Rightarrow> Inl e | Inr x1 \<Rightarrow>
     (case vec_at (x_ref l) x_upper_idx of Inl e \<Rightarrow> Inl e | Inr y1 \<Rightarrow>
        InterpolateLUT_linear_interpolate x0 y0 x1 y1 x_input))))"

definition InterpolateLUT_find :: "lut \<Rightarrow> real \<Rightarrow> real \<Rightarrow> error + real" where
  "InterpolateLUT_find l x_input y_input =
     (case InterpolateLUT_find_nearest_indexes (y_ref l) (y_len l) y_input of
        Inl e \<Rightarrow> Inl e
      | Inr None \<Rightarrow> Inr x_input
      | Inr (Some (y_lower_idx, y_upper_idx)) \<Rightarrow>
          (case InterpolateLUT_interpolated_y_values_at_x l y_lower_idx y_upper_idx y_input of
             Inl e \<Rightarrow> Inl e
           | Inr row \<Rightarrow>
               (case InterpolateLUT_find_nearest_indexes row (x_len l) x_input of
                  Inl e \<Rightarrow> Inl e
                | Inr None \<Rightarrow> Inr x_input
                | Inr (Some (x_lower_idx, x_upper_idx)) \<Rightarrow>
                    InterpolateLUT_final_interpolation l row x_lower_idx x_upper_idx x_input)))"

subsection \<open>Vocabulary of the properties\<close>

text \<open>
  The contract that the constructor leaves to its caller: the grid has \<open>y_len\<close> rows of
  \<open>x_len\<close> columns, and each reference list has the length of its axis. The lengths
  are C \<^verbatim>\<open>int\<close>s, hence at most \<open>INT_MAX\<close>.
\<close>

definition wf_lut :: "lut \<Rightarrow> bool" where
  "wf_lut l \<longleftrightarrow>
     int (length (table l)) = y_len l \<and>
     list_all (\<lambda>r. int (length r) = x_len l) (table l) \<and>
     int (length (x_ref l)) = x_len l \<and>
     int (length (y_ref l)) = y_len l \<and>
     x_len l \<le> INT_MAX \<and> y_len l \<le> INT_MAX"



text \<open>The pair \<open>(k, k + 1)\<close> brackets \<open>v\<close>: lower bound inclusive, upper bound exclusive.\<close>

definition bracket_at :: "real list \<Rightarrow> real \<Rightarrow> nat \<Rightarrow> bool" where
  "bracket_at xs v k \<longleftrightarrow> xs ! k \<le> v \<and> xs ! (k + 1) > v"

text \<open>The formula of \<^verbatim>\<open>linear_interpolate\<close>, as a number.\<close>

definition lerp :: "real \<Rightarrow> real \<Rightarrow> real \<Rightarrow> real \<Rightarrow> real \<Rightarrow> real" where
  "lerp x0 y0 x1 y1 x = y0 + (y1 - y0) * (x - x0) / (x1 - x0)"

text \<open>
  The synthetic row as a list of numbers: cell \<open>i\<close> interpolates between the cells
  \<open>i\<close> of the grid rows \<open>lo\<close> and \<open>hi\<close>.
\<close>

definition synthetic_row :: "lut \<Rightarrow> nat \<Rightarrow> nat \<Rightarrow> real \<Rightarrow> real list" where
  "synthetic_row l lo hi y =
     map (\<lambda>i. lerp (y_ref l ! lo) (table l ! lo ! i) (y_ref l ! hi) (table l ! hi ! i) y)
         [0..<nat (x_len l)]"

section \<open>Properties of the bracket search\<close>

lemma find_nearest_loop_step:
  assumes "int i < n - 1" and "n \<le> int (length xs)"
  shows "find_nearest_loop xs n v i =
    (if bracket_at xs v i then Inr (Some (i, i + 1)) else find_nearest_loop xs n v (i + 1))"
proof -
  have "\<not> n - 1 < INT_MIN" using assms(1) by (simp add: INT_MIN_def)
  with assms show ?thesis
    by (subst find_nearest_loop.simps) (auto simp: vec_at_def bracket_at_def)
qed

lemma find_nearest_loop_stop:
  "INT_MIN < n \<Longrightarrow> \<not> int i < n - 1 \<Longrightarrow> find_nearest_loop xs n v i = Inr None"
  by (subst find_nearest_loop.simps) simp

lemma find_nearest_loop_overflow:
  "n \<le> INT_MIN \<Longrightarrow> find_nearest_loop xs n v i = Inl Undefined_Behaviour"
  by (subst find_nearest_loop.simps) simp

lemma shift_lower_bound:
  assumes "\<not> P (i::nat)"
  shows "(\<forall>k. i \<le> k \<and> Q k \<longrightarrow> \<not> P k) \<longleftrightarrow> (\<forall>k. i + 1 \<le> k \<and> Q k \<longrightarrow> \<not> P k)"
proof -
  have "i + 1 \<le> k \<or> k = i" if "i \<le> k" for k
    using that by linarith
  with assms show ?thesis by auto
qed

lemma find_nearest_loop_None:
  assumes "n \<le> int (length xs)" and "INT_MIN < n"
  shows "find_nearest_loop xs n v i = Inr None \<longleftrightarrow>
         (\<forall>k. i \<le> k \<and> int k < n - 1 \<longrightarrow> \<not> bracket_at xs v k)"
proof (induction "nat (n - 1 - int i)" arbitrary: i)
  case 0
  then have "\<not> int i < n - 1" by simp
  then show ?case by (auto simp: find_nearest_loop_stop [OF assms(2)])
next
  case (Suc m)
  then have lt: "int i < n - 1" by linarith
  have "m = nat (n - 1 - int (i + 1))" using Suc.hyps(2) by linarith
  note IH = Suc.hyps(1) [OF this]
  show ?case
  proof (cases "bracket_at xs v i")
    case True
    then show ?thesis using lt by (auto simp: find_nearest_loop_step [OF lt assms(1)])
  next
    case False
    show ?thesis
      using False IH shift_lower_bound [where P = "bracket_at xs v" and i = i and Q = "\<lambda>k. int k < n - 1", OF False]
      by (simp add: find_nearest_loop_step [OF lt assms(1)])
  qed
qed

lemma find_nearest_loop_Some:
  assumes "n \<le> int (length xs)" and "INT_MIN < n"
  shows "find_nearest_loop xs n v i = Inr (Some (lo, hi)) \<longleftrightarrow>
         (i \<le> lo \<and> int lo < n - 1 \<and> hi = lo + 1 \<and> bracket_at xs v lo \<and>
          (\<forall>k. i \<le> k \<and> k < lo \<longrightarrow> \<not> bracket_at xs v k))"
proof (induction "nat (n - 1 - int i)" arbitrary: i)
  case 0
  then have "\<not> int i < n - 1" by simp
  then show ?case by (auto simp: find_nearest_loop_stop [OF assms(2)])
next
  case (Suc m)
  then have lt: "int i < n - 1" by linarith
  have "m = nat (n - 1 - int (i + 1))" using Suc.hyps(2) by linarith
  note IH = Suc.hyps(1) [OF this]
  show ?case
  proof (cases "bracket_at xs v i")
    case True
    have "lo = i" if "i \<le> lo" "\<forall>k. i \<le> k \<and> k < lo \<longrightarrow> \<not> bracket_at xs v k"
    proof (rule ccontr)
      assume "lo \<noteq> i"
      with that(1) have "i < lo" by simp
      with that(2) True show False by blast
    qed
    then show ?thesis using True lt by (auto simp: find_nearest_loop_step [OF lt assms(1)])
  next
    case False
    have "i \<le> lo \<and> bracket_at xs v lo \<longleftrightarrow> i + 1 \<le> lo \<and> bracket_at xs v lo"
      using False by (cases "lo = i") auto
    then show ?thesis
      using False IH shift_lower_bound [where P = "bracket_at xs v" and i = i and Q = "\<lambda>k. k < lo", OF False]
      by (simp add: find_nearest_loop_step [OF lt assms(1)]) blast
  qed
qed

lemma find_nearest_loop_no_error:
  assumes "n \<le> int (length xs)" and "INT_MIN < n"
  shows "find_nearest_loop xs n v i \<noteq> Inl e"
proof (induction "nat (n - 1 - int i)" arbitrary: i)
  case 0
  then have "\<not> int i < n - 1" by simp
  then show ?case by (simp add: find_nearest_loop_stop [OF assms(2)])
next
  case (Suc m)
  then have lt: "int i < n - 1" by linarith
  have "m = nat (n - 1 - int (i + 1))" using Suc.hyps(2) by linarith
  note IH = Suc.hyps(1) [OF this]
  show ?case using IH by (simp add: find_nearest_loop_step [OF lt assms(1)])
qed

text \<open>Without any assumption on the lengths: what a successful search has read.\<close>

lemma find_nearest_loop_Some_read:
  "find_nearest_loop xs n v i = Inr (Some (lo, hi)) \<Longrightarrow>
     lo < length xs \<and> hi < length xs \<and> hi = lo + 1 \<and> int lo < n - 1 \<and> xs ! lo \<le> v \<and> v < xs ! hi"
proof (induction xs n v i rule: find_nearest_loop.induct)
  case (1 list list_len search_val i)
  from "1.prems" show ?case
    apply (subst (asm) find_nearest_loop.simps)
    apply (auto simp: vec_at_def split: if_splits sum.splits dest: "1.IH")
    done
qed

lemma find_nearest_loop_error:
  "find_nearest_loop xs n v i = Inl e \<Longrightarrow> e = Undefined_Behaviour"
proof (induction xs n v i rule: find_nearest_loop.induct)
  case (1 list list_len search_val i)
  from "1.prems" show ?case
    apply (subst (asm) find_nearest_loop.simps)
    apply (auto simp: vec_at_def split: if_splits sum.splits dest: "1.IH")
    done
qed

text \<open>
  Claim C4. On a list that has at least \<open>list_len\<close> elements, with \<open>list_len\<close> above
  \<open>INT_MIN\<close> so that \<^verbatim>\<open>list_len-1\<close> does not overflow, the search returns the lowest
  index \<open>lo\<close> among \<open>0, \<dots>, list_len - 2\<close> with \<open>list[lo] \<le> v < list[lo + 1]\<close>,
  together with \<open>lo + 1\<close>; it fails exactly when no such index exists; and it reads
  nothing outside the list. The index \<open>list_len - 1\<close> of the last element is never
  returned as a lower bound.
\<close>

theorem find_nearest_indexes_lowest_bracket:
  assumes "list_len \<le> int (length list)" and "INT_MIN < list_len"
  shows "(find_nearest_indexes list list_len v = Inr (Some (lo, hi)) \<longleftrightarrow>
            int lo < list_len - 1 \<and> hi = lo + 1 \<and>
            list ! lo \<le> v \<and> list ! (lo + 1) > v \<and>
            (\<forall>k<lo. \<not> (list ! k \<le> v \<and> list ! (k + 1) > v)))
       \<and> (find_nearest_indexes list list_len v = Inr None \<longleftrightarrow>
            \<not> (\<exists>k. int k < list_len - 1 \<and> list ! k \<le> v \<and> list ! (k + 1) > v))
       \<and> (\<forall>e. find_nearest_indexes list list_len v \<noteq> Inl e)"
  unfolding find_nearest_indexes_def
  using find_nearest_loop_Some [OF assms, of v 0 lo hi]
        find_nearest_loop_None [OF assms, of v 0]
        find_nearest_loop_no_error [OF assms, of v 0]
  by (auto simp: bracket_at_def)

theorem find_nearest_indexes_lowest_bracket_witness:
  "(4::int) \<le> int (length [1, 2, 2, 3 :: real]) \<and> INT_MIN < 4
   \<and> find_nearest_indexes [1, 2, 2, 3] 4 2 = Inr (Some (2, 3))
   \<and> find_nearest_indexes [1, 2, 2, 3] 4 3 = Inr None"
proof -
  have len: "(4::int) \<le> int (length [1, 2, 2, 3 :: real])" by simp
  have low: "INT_MIN < 4" by (simp add: INT_MIN_def)
  have "k < 2 \<longleftrightarrow> k = 0 \<or> k = 1" for k :: nat by auto
  then have "find_nearest_indexes [1, 2, 2, 3] 4 2 = Inr (Some (2, 3))"
    using find_nearest_indexes_lowest_bracket [OF len low, of 2 2 3] by simp
  moreover have "k < 3 \<longleftrightarrow> k = 0 \<or> k = 1 \<or> k = 2" for k :: nat by auto
  then have "find_nearest_indexes [1, 2, 2, 3] 4 3 = Inr None"
    using find_nearest_indexes_lowest_bracket [OF len low, of 3 0 0] by auto
  ultimately show ?thesis using len low by simp
qed

section \<open>Properties of the interpolation\<close>

lemma linear_interpolate_eq:
  "x1 \<noteq> x0 \<Longrightarrow> linear_interpolate x0 y0 x1 y1 x = Inr (lerp x0 y0 x1 y1 x)"
  by (simp add: linear_interpolate_def lerp_def)

lemma interpolated_value_no_div:
  assumes "y_ref l ! lo < y_ref l ! hi"
  shows "interpolated_value l lo hi y i \<noteq> Inl Division_By_Zero"
  using assms
  by (auto simp: interpolated_value_def vec_at_def linear_interpolate_def split: sum.splits if_splits)

lemma interpolate_loop_no_div:
  assumes "y_ref l ! lo < y_ref l ! hi"
  shows "interpolate_loop l lo hi y i row \<noteq> Inl Division_By_Zero"
proof (induction "nat (x_len l - int i)" arbitrary: i row)
  case 0
  then show ?case by (subst interpolate_loop.simps) simp
next
  case (Suc m)
  have "m = nat (x_len l - int (i + 1))" using Suc.hyps(2) by linarith
  note IH = Suc.hyps(1) [OF this]
  show ?case
    using IH interpolated_value_no_div [OF assms, of y i]
    by (subst interpolate_loop.simps) (auto split: sum.splits)
qed

lemma final_interpolation_no_div:
  assumes "row ! lo < row ! hi"
  shows "final_interpolation l row lo hi x \<noteq> Inl Division_By_Zero"
  using assms
  by (auto simp: final_interpolation_def vec_at_def linear_interpolate_def split: sum.splits if_splits)

lemma find_nearest_indexes_Some_read:
  "find_nearest_indexes xs n v = Inr (Some (lo, hi)) \<Longrightarrow>
     lo < length xs \<and> hi < length xs \<and> hi = lo + 1 \<and> int lo < n - 1 \<and> xs ! lo \<le> v \<and> v < xs ! hi"
  unfolding find_nearest_indexes_def by (rule find_nearest_loop_Some_read)

lemma find_nearest_indexes_error:
  "find_nearest_indexes xs n v = Inl e \<Longrightarrow> e = Undefined_Behaviour"
  unfolding find_nearest_indexes_def by (rule find_nearest_loop_error)

text \<open>
  Claim C9. A successful bracket search returns indexes with
  \<open>list[lo] \<le> v < list[hi]\<close>, hence \<open>list[lo] < list[hi]\<close>. Both calls of
  \<^verbatim>\<open>linear_interpolate\<close> in \<^verbatim>\<open>find\<close> take their endpoints \<open>x0\<close>, \<open>x1\<close> from
  such a pair, so \<^verbatim>\<open>find\<close> never divides by zero: for every table, well-formed or
  not, and every input.
\<close>

theorem find_never_divides_by_zero:
  "(find_nearest_indexes list list_len v = Inr (Some (lo, hi)) \<longrightarrow>
      list ! lo \<le> v \<and> v < list ! hi \<and> list ! lo < list ! hi)
   \<and> InterpolableLUT_find l x_input y_input \<noteq> Inl Division_By_Zero"
proof
  show "find_nearest_indexes list list_len v = Inr (Some (lo, hi)) \<longrightarrow>
      list ! lo \<le> v \<and> v < list ! hi \<and> list ! lo < list ! hi"
    using find_nearest_indexes_Some_read [of list list_len v lo hi] by auto
next
  show "InterpolableLUT_find l x_input y_input \<noteq> Inl Division_By_Zero"
  proof (cases "find_nearest_indexes (y_ref l) (y_len l) y_input")
    case (Inl e)
    then show ?thesis
      using find_nearest_indexes_error [OF Inl] by (simp add: InterpolableLUT_find_def)
  next
    case (Inr r)
    show ?thesis
    proof (cases r)
      case None
      with Inr show ?thesis by (simp add: InterpolableLUT_find_def)
    next
      case (Some p)
      obtain ylo yhi where p: "p = (ylo, yhi)" by (cases p)
      have ybr: "find_nearest_indexes (y_ref l) (y_len l) y_input = Inr (Some (ylo, yhi))"
        using Inr Some p by simp
      have ylt: "y_ref l ! ylo < y_ref l ! yhi"
        using find_nearest_indexes_Some_read [OF ybr] by auto
      show ?thesis
      proof (cases "interpolated_y_values_at_x l ylo yhi y_input")
        case (Inl e)
        then have "e \<noteq> Division_By_Zero"
          using interpolate_loop_no_div [OF ylt, of y_input 0]
          by (auto simp: interpolated_y_values_at_x_def split: if_splits)
        with Inl ybr show ?thesis by (simp add: InterpolableLUT_find_def)
      next
        case row: (Inr row)
        show ?thesis
        proof (cases "find_nearest_indexes row (x_len l) x_input")
          case (Inl e)
          with row ybr show ?thesis
            using find_nearest_indexes_error [OF Inl] by (simp add: InterpolableLUT_find_def)
        next
          case (Inr r2)
          show ?thesis
          proof (cases r2)
            case None
            with Inr row ybr show ?thesis by (simp add: InterpolableLUT_find_def)
          next
            case (Some q)
            obtain xlo xhi where q: "q = (xlo, xhi)" by (cases q)
            have xbr: "find_nearest_indexes row (x_len l) x_input = Inr (Some (xlo, xhi))"
              using Inr Some q by simp
            have "row ! xlo < row ! xhi"
              using find_nearest_indexes_Some_read [OF xbr] by auto
            from final_interpolation_no_div [OF this] show ?thesis
              using xbr row ybr by (simp add: InterpolableLUT_find_def)
          qed
        qed
      qed
    qed
  qed
qed

theorem find_never_divides_by_zero_witness:
  "find_nearest_indexes [0, 1] 2 0 = Inr (Some (0, 1)) \<and> [0, 1 :: real] ! 0 < [0, 1] ! 1
   \<and> InterpolableLUT_find small_lut (3 / 2) 0 = Inr 15"
proof -
  have s: "find_nearest_indexes [0, 1] 2 0 = Inr (Some (0, 1))"
    by (simp add: find_nearest_indexes_def find_nearest_loop.simps INT_MIN_def vec_at_def)
  have "InterpolableLUT_find small_lut (3 / 2) 0 = Inr 15"
    by (simp add: small_lut_def InterpolableLUT_def InterpolableLUT_find_def
        find_nearest_indexes_def find_nearest_loop.simps INT_MIN_def vec_at_def
        interpolated_y_values_at_x_def interpolate_loop.simps interpolated_value_def
        linear_interpolate_def final_interpolation_def)
  then show ?thesis
    using s find_never_divides_by_zero [of "[0, 1]" 2 0 0 1 small_lut "3 / 2" 0] by simp
qed

section \<open>The synthetic row of a well-formed table\<close>

lemma interpolated_value_eq:
  assumes "lo < length (y_ref l)" "hi < length (y_ref l)"
      and "lo < length (table l)" "hi < length (table l)"
      and "i < length (table l ! lo)" "i < length (table l ! hi)"
      and "y_ref l ! lo \<noteq> y_ref l ! hi"
  shows "interpolated_value l lo hi y i =
           Inr (lerp (y_ref l ! lo) (table l ! lo ! i) (y_ref l ! hi) (table l ! hi ! i) y)"
  using assms by (simp add: interpolated_value_def vec_at_def linear_interpolate_def lerp_def)

lemma interpolate_loop_eq:
  assumes "lo < length (y_ref l)" "hi < length (y_ref l)"
      and "lo < length (table l)" "hi < length (table l)"
      and "nat (x_len l) \<le> length (table l ! lo)" "nat (x_len l) \<le> length (table l ! hi)"
      and "y_ref l ! lo \<noteq> y_ref l ! hi"
      and "length row = nat (x_len l)"
  shows "\<exists>row'. interpolate_loop l lo hi y i row = Inr row' \<and> length row' = length row \<and>
           (\<forall>j<length row. row' ! j = (if j < i then row ! j else synthetic_row l lo hi y ! j))"
  using assms(8)
proof (induction "nat (x_len l - int i)" arbitrary: i row)
  case 0
  then have "\<not> int i < x_len l" by simp
  then have "interpolate_loop l lo hi y i row = Inr row"
    by (subst interpolate_loop.simps) simp
  moreover have "j < i" if "j < length row" for j
    using that 0 by linarith
  ultimately show ?case by simp
next
  case (Suc m)
  then have lt: "int i < x_len l" by linarith
  then have i: "i < nat (x_len l)" by linarith
  let ?v = "lerp (y_ref l ! lo) (table l ! lo ! i) (y_ref l ! hi) (table l ! hi ! i) y"
  have v: "interpolated_value l lo hi y i = Inr ?v"
    using assms(1-7) i by (intro interpolated_value_eq) simp_all
  have m: "m = nat (x_len l - int (Suc i))" using Suc.hyps(2) by linarith
  have len: "length (row[i := ?v]) = nat (x_len l)" using Suc.prems by simp
  from Suc.hyps(1) [OF m len] obtain row' where
    r: "interpolate_loop l lo hi y (Suc i) (row[i := ?v]) = Inr row'"
    and l: "length row' = length row"
    and c: "\<forall>j<length row. row' ! j =
              (if j < Suc i then row[i := ?v] ! j else synthetic_row l lo hi y ! j)"
    by auto
  have step: "interpolate_loop l lo hi y i row = Inr row'"
    using lt v i Suc.prems r by (subst interpolate_loop.simps) simp
  have si: "synthetic_row l lo hi y ! i = ?v"
    using i by (simp add: synthetic_row_def)
  have "row' ! j = (if j < i then row ! j else synthetic_row l lo hi y ! j)"
    if "j < length row" for j
    using c [rule_format, OF that] si that by (cases "j = i") (auto simp: less_Suc_eq)
  with step l show ?case by simp
qed

lemma interpolated_y_values_at_x_eq:
  assumes "lo < length (y_ref l)" "hi < length (y_ref l)"
      and "lo < length (table l)" "hi < length (table l)"
      and "nat (x_len l) \<le> length (table l ! lo)" "nat (x_len l) \<le> length (table l ! hi)"
      and "y_ref l ! lo \<noteq> y_ref l ! hi"
      and "0 \<le> x_len l"
  shows "interpolated_y_values_at_x l lo hi y = Inr (synthetic_row l lo hi y)"
proof -
  let ?z = "replicate (nat (x_len l)) (0::real)"
  have "length ?z = nat (x_len l)" by simp
  from interpolate_loop_eq [OF assms(1-7) this, of y 0] obtain row' where
    r: "interpolate_loop l lo hi y 0 ?z = Inr row'"
    and l: "length row' = nat (x_len l)"
    and c: "\<forall>j<nat (x_len l). row' ! j = synthetic_row l lo hi y ! j"
    by auto
  have "row' = synthetic_row l lo hi y"
    using l c by (intro nth_equalityI) (simp_all add: synthetic_row_def)
  with r assms(8) show ?thesis by (simp add: interpolated_y_values_at_x_def)
qed

lemma wf_lut_row_length:
  "wf_lut l \<Longrightarrow> k < length (table l) \<Longrightarrow> int (length (table l ! k)) = x_len l"
  by (simp add: wf_lut_def list_all_length)

lemma wf_lut_synthetic_row:
  assumes "wf_lut l"
      and "find_nearest_indexes (y_ref l) (y_len l) y = Inr (Some (lo, hi))"
  shows "interpolated_y_values_at_x l lo hi y = Inr (synthetic_row l lo hi y)"
proof -
  from find_nearest_indexes_Some_read [OF assms(2)]
  have b: "lo < length (y_ref l)" "hi < length (y_ref l)" "y_ref l ! lo \<noteq> y_ref l ! hi"
    by auto
  have t: "lo < length (table l)" "hi < length (table l)"
    using b assms(1) by (auto simp: wf_lut_def)
  have "nat (x_len l) \<le> length (table l ! lo)" "nat (x_len l) \<le> length (table l ! hi)"
    using wf_lut_row_length [OF assms(1) t(1)] wf_lut_row_length [OF assms(1) t(2)]
    by linarith+
  moreover have "0 \<le> x_len l" using assms(1) by (auto simp: wf_lut_def)
  ultimately show ?thesis using b t by (intro interpolated_y_values_at_x_eq)
qed

lemma length_synthetic_row [simp]: "length (synthetic_row l lo hi y) = nat (x_len l)"
  by (simp add: synthetic_row_def)


text \<open>What \<^verbatim>\<open>find\<close> returns once the bracket in \<open>y\<close> and the synthetic row are known.\<close>

lemma find_of_row:
  assumes "find_nearest_indexes (y_ref l) (y_len l) y = Inr (Some (lo, hi))"
      and "interpolated_y_values_at_x l lo hi y = Inr row"
  shows "InterpolableLUT_find l x y =
     (case find_nearest_indexes row (x_len l) x of
        Inl e \<Rightarrow> Inl e
      | Inr None \<Rightarrow> Inr x
      | Inr (Some (xlo, xhi)) \<Rightarrow> final_interpolation l row xlo xhi x)"
  using assms by (simp add: InterpolableLUT_find_def)

lemma find_no_y_bracket:
  "find_nearest_indexes (y_ref l) (y_len l) y = Inr None \<Longrightarrow> InterpolableLUT_find l x y = Inr x"
  by (simp add: InterpolableLUT_find_def)

text \<open>A sorted list has no bracket for a value below its first or from its last element on.\<close>

lemma sorted_no_bracket:
  assumes "sorted xs" and "n \<le> int (length xs)" and "INT_MIN < n"
      and "v < xs ! 0 \<or> xs ! nat (n - 1) \<le> v"
  shows "find_nearest_indexes xs n v = Inr None"
proof -
  have "\<not> bracket_at xs v k" if k: "int k < n - 1" for k
  proof -
    have "xs ! 0 \<le> xs ! k" "xs ! (k + 1) \<le> xs ! nat (n - 1)"
      using assms(1,2) k by (auto intro!: sorted_nth_mono)
    with assms(4) show ?thesis by (auto simp: bracket_at_def)
  qed
  then show ?thesis
    unfolding find_nearest_indexes_def using find_nearest_loop_None [OF assms(2,3), of v 0] by simp
qed

text \<open>
  Claim C1. When the Y reference list is sorted ascending and \<open>y_input\<close> is below
  \<open>Y-ref[0]\<close>, or equal to or above \<open>Y-ref[y_len - 1]\<close>, \<^verbatim>\<open>find\<close> returns
  \<open>x_input\<close> unchanged, for every \<open>x_input\<close>. Of the contract of the constructor only
  \<open>y_len \<le> length Y-ref\<close> is needed, and of \<open>y_len\<close> being a count only that it is
  above \<open>INT_MIN\<close>. No arithmetic on doubles takes place.
\<close>

theorem find_identity_outside_y_range:
  assumes "y_len l \<le> int (length (y_ref l))" and "INT_MIN < y_len l"
      and "sorted (y_ref l)"
      and "y_input < y_ref l ! 0 \<or> y_input \<ge> y_ref l ! nat (y_len l - 1)"
  shows "InterpolableLUT_find l x_input y_input = Inr x_input"
  using sorted_no_bracket [OF assms(3,1,2), of y_input] assms(4)
  by (intro find_no_y_bracket) auto

theorem find_identity_outside_y_range_witness:
  "y_len lutPh \<le> int (length (y_ref lutPh)) \<and> INT_MIN < y_len lutPh \<and> sorted (y_ref lutPh)
   \<and> y_ref lutPh ! nat (y_len lutPh - 1) = 55
   \<and> InterpolableLUT_find lutPh 7 55 = Inr 7
   \<and> y_ref lutPh ! 0 = 0
   \<and> InterpolableLUT_find lutPh 7 (- 1) = Inr 7"
proof -
  have a: "y_len lutPh \<le> int (length (y_ref lutPh))" "INT_MIN < y_len lutPh"
    by (simp_all add: lutPh_def InterpolableLUT_def temp_points_def INT_MIN_def)
  have b: "sorted (y_ref lutPh)"
    by (simp add: lutPh_def InterpolableLUT_def temp_points_def)
  have c: "y_ref lutPh ! nat (y_len lutPh - 1) = 55" "y_ref lutPh ! 0 = 0"
    by (simp_all add: lutPh_def InterpolableLUT_def temp_points_def)
  show ?thesis
    using a b c find_identity_outside_y_range [OF a b, of 55 7]
      find_identity_outside_y_range [OF a b, of "- 1" 7]
    by simp
qed

text \<open>
  Claim C3. When the bracket search in \<open>y\<close> succeeds and the bracket search for
  \<open>x_input\<close> over the synthetic row computed at \<open>y_input\<close> finds no bracket, \<^verbatim>\<open>find\<close>
  returns \<open>x_input\<close> unchanged.
\<close>

theorem find_identity_outside_synthetic_row:
  assumes "find_nearest_indexes (y_ref l) (y_len l) y_input = Inr (Some (y_lower_idx, y_upper_idx))"
      and "interpolated_y_values_at_x l y_lower_idx y_upper_idx y_input = Inr row"
      and "find_nearest_indexes row (x_len l) x_input = Inr None"
  shows "InterpolableLUT_find l x_input y_input = Inr x_input"
  using assms by (simp add: find_of_row)

theorem find_identity_outside_synthetic_row_witness:
  "find_nearest_indexes (y_ref lutPh) (y_len lutPh) 37 = Inr (Some (7, 8))
   \<and> interpolated_y_values_at_x lutPh 7 8 37 =
       Inr [1694 / 1000, 4024 / 1000, 684 / 100, 6976 / 1000, 9088 / 1000, 9914 / 1000, 1208 / 100]
   \<and> find_nearest_indexes
         [1694 / 1000, 4024 / 1000, 684 / 100, 6976 / 1000, 9088 / 1000, 9914 / 1000, 1208 / 100]
         (x_len lutPh) 13 = Inr None
   \<and> InterpolableLUT_find lutPh 13 37 = Inr 13"
proof -
  let ?row = "[1694 / 1000, 4024 / 1000, 684 / 100, 6976 / 1000, 9088 / 1000, 9914 / 1000, 1208 / 100 :: real]"
  have a: "find_nearest_indexes (y_ref lutPh) (y_len lutPh) 37 = Inr (Some (7, 8))"
    by (simp add: lutPh_def InterpolableLUT_def temp_points_def find_nearest_indexes_def
        find_nearest_loop.simps INT_MIN_def vec_at_def)
  have b: "interpolated_y_values_at_x lutPh 7 8 37 = Inr ?row"
    by (simp add: lutPh_def InterpolableLUT_def temp_points_def ph_values_def
        interpolated_y_values_at_x_def interpolate_loop.simps interpolated_value_def
        linear_interpolate_def vec_at_def eval_nat_numeral)
  have c: "find_nearest_indexes ?row (x_len lutPh) 13 = Inr None"
    by (simp add: lutPh_def InterpolableLUT_def find_nearest_indexes_def
        find_nearest_loop.simps INT_MIN_def vec_at_def)
  from find_identity_outside_synthetic_row [OF a b c] a b c show ?thesis by simp
qed

section \<open>Lists too short to hold a bracket\<close>

lemma find_nearest_indexes_short:
  "INT_MIN < list_len \<Longrightarrow> list_len < 2 \<Longrightarrow> find_nearest_indexes list list_len v = Inr None"
  unfolding find_nearest_indexes_def by (rule find_nearest_loop_stop) simp_all

text \<open>
  Claim C10, for the tables in which \<^verbatim>\<open>find\<close> reaches the search. The bracket search
  with \<open>list_len < 2\<close>, and above \<open>INT_MIN\<close>, makes no iteration and fails. So
  \<^verbatim>\<open>find\<close> returns \<open>x_input\<close> unchanged for a table built with such a \<open>y_len\<close>, whatever
  its vectors are; and also for a table with \<open>x_len < 2\<close> once the bracket search in
  \<open>y\<close> has succeeded and the synthetic row has been built, which needs \<open>x_len\<close> not
  to be negative and the two grid rows to hold \<open>x_len\<close> cells, as in every
  well-formed table.
\<close>

theorem find_identity_short_table:
  "(INT_MIN < list_len \<and> list_len < 2 \<longrightarrow> find_nearest_indexes list list_len v = Inr None)
   \<and> (INT_MIN < y_len l \<and> y_len l < 2 \<longrightarrow> InterpolableLUT_find l x_input y_input = Inr x_input)
   \<and> (x_len l < 2 \<and>
        find_nearest_indexes (y_ref l) (y_len l) y_input = Inr (Some (lo, hi)) \<and>
        interpolated_y_values_at_x l lo hi y_input = Inr row \<longrightarrow>
          InterpolableLUT_find l x_input y_input = Inr x_input)
   \<and> (wf_lut l \<and> x_len l < 2 \<and>
        find_nearest_indexes (y_ref l) (y_len l) y_input = Inr (Some (lo, hi)) \<longrightarrow>
          InterpolableLUT_find l x_input y_input = Inr x_input)"
proof -
  have short: "InterpolableLUT_find l x_input y_input = Inr x_input"
    if x: "x_len l < 2"
      and ybr: "find_nearest_indexes (y_ref l) (y_len l) y_input = Inr (Some (lo, hi))"
      and r: "interpolated_y_values_at_x l lo hi y_input = Inr r'" for r'
  proof -
    have "0 \<le> x_len l"
      using r by (auto simp: interpolated_y_values_at_x_def split: if_splits)
    then have "INT_MIN < x_len l" by (simp add: INT_MIN_def)
    then have "find_nearest_indexes r' (x_len l) x_input = Inr None"
      using x by (rule find_nearest_indexes_short)
    then show ?thesis by (simp add: find_of_row [OF ybr r])
  qed
  show ?thesis
  proof (intro conjI impI)
    assume "INT_MIN < list_len \<and> list_len < 2"
    then show "find_nearest_indexes list list_len v = Inr None"
      by (intro find_nearest_indexes_short) simp_all
  next
    assume "INT_MIN < y_len l \<and> y_len l < 2"
    then show "InterpolableLUT_find l x_input y_input = Inr x_input"
      by (intro find_no_y_bracket find_nearest_indexes_short) simp_all
  next
    assume "x_len l < 2 \<and>
      find_nearest_indexes (y_ref l) (y_len l) y_input = Inr (Some (lo, hi)) \<and>
      interpolated_y_values_at_x l lo hi y_input = Inr row"
    then show "InterpolableLUT_find l x_input y_input = Inr x_input"
      by (intro short) simp_all
  next
    assume a: "wf_lut l \<and> x_len l < 2 \<and>
      find_nearest_indexes (y_ref l) (y_len l) y_input = Inr (Some (lo, hi))"
    then have "interpolated_y_values_at_x l lo hi y_input = Inr (synthetic_row l lo hi y_input)"
      by (intro wf_lut_synthetic_row) simp_all
    with a show "InterpolableLUT_find l x_input y_input = Inr x_input"
      by (intro short) simp_all
  qed
qed

theorem find_identity_short_table_witness:
  "INT_MIN < (1::int) \<and> (1::int) < 2 \<and> find_nearest_indexes [5] 1 5 = Inr None
   \<and> INT_MIN < y_len (InterpolableLUT [[1, 2]] [10, 20] [0] 2 1)
   \<and> y_len (InterpolableLUT [[1, 2]] [10, 20] [0] 2 1) < 2
   \<and> InterpolableLUT_find (InterpolableLUT [[1, 2]] [10, 20] [0] 2 1) 1 0 = Inr 1
   \<and> wf_lut (InterpolableLUT [[1], [3]] [10] [0, 1] 1 2)
   \<and> x_len (InterpolableLUT [[1], [3]] [10] [0, 1] 1 2) < 2
   \<and> find_nearest_indexes (y_ref (InterpolableLUT [[1], [3]] [10] [0, 1] 1 2))
        (y_len (InterpolableLUT [[1], [3]] [10] [0, 1] 1 2)) 0 = Inr (Some (0, 1))
   \<and> interpolated_y_values_at_x (InterpolableLUT [[1], [3]] [10] [0, 1] 1 2) 0 1 0 = Inr [1]
   \<and> InterpolableLUT_find (InterpolableLUT [[1], [3]] [10] [0, 1] 1 2) 1 0 = Inr 1"
proof -
  let ?a = "InterpolableLUT [[1, 2]] [10, 20] [0] 2 1"
  let ?b = "InterpolableLUT [[1], [3]] [10] [0, 1] 1 2"
  have 0: "INT_MIN < (1::int)" by (simp add: INT_MIN_def)
  have 1: "wf_lut ?b"
    by (simp add: wf_lut_def InterpolableLUT_def INT_MAX_def)
  have 2: "find_nearest_indexes (y_ref ?b) (y_len ?b) 0 = Inr (Some (0, 1))"
    by (simp add: InterpolableLUT_def find_nearest_indexes_def find_nearest_loop.simps
        INT_MIN_def vec_at_def)
  have 3: "INT_MIN < y_len ?a" "y_len ?a < 2" "x_len ?b < 2"
    by (simp_all add: InterpolableLUT_def INT_MIN_def)
  have 4: "interpolated_y_values_at_x ?b 0 1 0 = Inr [1]"
    by (simp add: InterpolableLUT_def interpolated_y_values_at_x_def interpolate_loop.simps
        interpolated_value_def linear_interpolate_def vec_at_def)
  show ?thesis
    using 0 1 2 3 4 find_identity_short_table [of 1 "[5]" 5 ?a 1 0 0 0 "[]"]
      find_identity_short_table [of 1 "[5]" 5 ?b 1 0 0 1 "[1]"]
    by simp
qed

text \<open>
  Without these conditions \<^verbatim>\<open>find\<close> does not reach the search. A negative \<open>x_len\<close>
  is below 2, but once the bracket search in \<open>y\<close> has succeeded the declaration of
  the synthetic row throws \<^verbatim>\<open>std::length_error\<close>; and with \<open>y_len = INT_MIN\<close> the
  loop bound \<^verbatim>\<open>list_len-1\<close> overflows.
\<close>

theorem find_short_table_counterexample:
  "x_len (InterpolableLUT [[1, 2], [3, 4]] [10, 20] [0, 1] (- 1) 2) < 2
   \<and> find_nearest_indexes (y_ref (InterpolableLUT [[1, 2], [3, 4]] [10, 20] [0, 1] (- 1) 2))
         (y_len (InterpolableLUT [[1, 2], [3, 4]] [10, 20] [0, 1] (- 1) 2)) 0 = Inr (Some (0, 1))
   \<and> InterpolableLUT_find (InterpolableLUT [[1, 2], [3, 4]] [10, 20] [0, 1] (- 1) 2) 1 0
         = Inl Length_Error
   \<and> InterpolableLUT_find (InterpolableLUT [[1, 2], [3, 4]] [10, 20] [0, 1] (- 1) 2) 1 0 \<noteq> Inr 1
   \<and> y_len (InterpolableLUT [] [] [] 0 (- 2147483648)) < 2
   \<and> InterpolableLUT_find (InterpolableLUT [] [] [] 0 (- 2147483648)) 1 0
         = Inl Undefined_Behaviour
   \<and> InterpolableLUT_find (InterpolableLUT [] [] [] 0 (- 2147483648)) 1 0 \<noteq> Inr 1"
  by (simp add: InterpolableLUT_def InterpolableLUT_find_def find_nearest_indexes_def
      find_nearest_loop.simps INT_MIN_def vec_at_def interpolated_y_values_at_x_def)

section \<open>Row access\<close>

lemma word_of_int_le_iff:
  assumes "0 \<le> n" and "n \<le> INT_MAX"
  shows "(word_of_int n :: 64 word) \<le> row \<longleftrightarrow> nat n \<le> unat row"
proof -
  have "n < 2 ^ 64" using assms(2) by (simp add: INT_MAX_def)
  with assms(1) have "uint (word_of_int n :: 64 word) = n"
    by (simp add: uint_word_of_int)
  then have "unat (word_of_int n :: 64 word) = nat n"
    by (simp add: unat_eq_nat_uint)
  then show ?thesis by (simp add: word_le_nat_alt)
qed

text \<open>
  Claim C7. In a well-formed table, row access with an index \<open>\<ge> y_len\<close> throws
  \<^verbatim>\<open>std::out_of_range\<close>, and row access with an index below \<open>y_len\<close> returns the row
  that the constructor was given at that index.
\<close>

theorem operator_index_bounds:
  assumes "wf_lut (InterpolableLUT tbl xr yr xl yl)"
  shows "(int (unat row) \<ge> yl \<longrightarrow>
            InterpolableLUT_operator_index (InterpolableLUT tbl xr yr xl yl) row = Inl Out_Of_Range)
       \<and> (int (unat row) < yl \<longrightarrow>
            InterpolableLUT_operator_index (InterpolableLUT tbl xr yr xl yl) row = Inr (tbl ! unat row))"
proof -
  have y: "0 \<le> yl" "yl \<le> INT_MAX" "int (length tbl) = yl"
    using assms by (auto simp: wf_lut_def InterpolableLUT_def)
  have n: "nat yl = length tbl" using y(3) by linarith
  have "int (unat row) \<ge> yl \<longleftrightarrow> length tbl \<le> unat row"
    unfolding y(3) [symmetric] by (rule of_nat_le_iff)
  then show ?thesis
    by (auto simp add: InterpolableLUT_operator_index_def InterpolableLUT_def
        word_of_int_le_iff [OF y(1,2)] n vec_at_def simp del: of_nat_unat)
qed

theorem operator_index_bounds_witness:
  "wf_lut small_lut
   \<and> InterpolableLUT_operator_index small_lut 2 = Inl Out_Of_Range
   \<and> InterpolableLUT_operator_index small_lut 1 = Inr [3, 4]"
proof -
  have w: "wf_lut (InterpolableLUT [[1, 2], [3, 4]] [10, 20] [0, 1] 2 2)"
    by (simp add: wf_lut_def InterpolableLUT_def INT_MAX_def)
  from operator_index_bounds [OF w, of 2] operator_index_bounds [OF w, of 1] w
  show ?thesis by (simp add: small_lut_def)
qed

section \<open>The two classes compared\<close>

lemma InterpolateLUT_linear_interpolate_eq:
  "InterpolateLUT_linear_interpolate = linear_interpolate"
  by (intro ext) (simp add: InterpolateLUT_linear_interpolate_def linear_interpolate_def)

lemma InterpolateLUT_find_nearest_loop_eq:
  "InterpolateLUT_find_nearest_loop xs n v i = find_nearest_loop xs n v i"
proof (induction "nat (n - 1 - int i)" arbitrary: i)
  case 0
  then have "\<not> int i < n - 1" by simp
  then show ?case
    by (simp add: InterpolateLUT_find_nearest_loop.simps [of xs n v i]
        find_nearest_loop.simps [of xs n v i])
next
  case (Suc m)
  have "m = nat (n - 1 - int (i + 1))" using Suc.hyps(2) by linarith
  note IH = Suc.hyps(1) [OF this]
  show ?case
    unfolding InterpolateLUT_find_nearest_loop.simps [of xs n v i]
      find_nearest_loop.simps [of xs n v i] IH ..
qed

lemma InterpolateLUT_find_nearest_indexes_eq:
  "InterpolateLUT_find_nearest_indexes = find_nearest_indexes"
  by (intro ext) (simp add: InterpolateLUT_find_nearest_indexes_def find_nearest_indexes_def
      InterpolateLUT_find_nearest_loop_eq)

lemma InterpolateLUT_interpolated_value_eq:
  "InterpolateLUT_interpolated_value = interpolated_value"
  unfolding InterpolateLUT_interpolated_value_def [abs_def] interpolated_value_def [abs_def]
    InterpolateLUT_linear_interpolate_eq ..

lemma InterpolateLUT_interpolate_loop_eq:
  "InterpolateLUT_interpolate_loop l lo hi y i row = interpolate_loop l lo hi y i row"
proof (induction "nat (x_len l - int i)" arbitrary: i row)
  case 0
  then have "\<not> int i < x_len l" by simp
  then show ?case
    by (simp add: InterpolateLUT_interpolate_loop.simps [of l lo hi y i row]
        interpolate_loop.simps [of l lo hi y i row])
next
  case (Suc m)
  have "m = nat (x_len l - int (i + 1))" using Suc.hyps(2) by linarith
  note IH = Suc.hyps(1) [OF this]
  show ?case
    unfolding InterpolateLUT_interpolate_loop.simps [of l lo hi y i row]
      interpolate_loop.simps [of l lo hi y i row] InterpolateLUT_interpolated_value_eq IH ..
qed

lemma InterpolateLUT_interpolated_y_values_at_x_eq:
  "InterpolateLUT_interpolated_y_values_at_x = interpolated_y_values_at_x"
  by (intro ext) (simp add: InterpolateLUT_interpolated_y_values_at_x_def
      interpolated_y_values_at_x_def InterpolateLUT_interpolate_loop_eq)

lemma InterpolateLUT_final_interpolation_eq:
  "InterpolateLUT_final_interpolation = final_interpolation"
  unfolding InterpolateLUT_final_interpolation_def [abs_def] final_interpolation_def [abs_def]
    InterpolateLUT_linear_interpolate_eq ..

text \<open>
  Claim C8. Objects of the two classes built from the same table, reference lists and
  lengths answer the same \<open>(x_input, y_input)\<close> alike: \<^verbatim>\<open>InterpolateLUT::find\<close> and
  \<^verbatim>\<open>InterpolableLUT::find\<close> return the same result, errors included.
\<close>

theorem InterpolateLUT_find_eq_InterpolableLUT_find:
  "InterpolateLUT_find (InterpolateLUT tbl xr yr xl yl) x_input y_input =
   InterpolableLUT_find (InterpolableLUT tbl xr yr xl yl) x_input y_input"
  unfolding InterpolateLUT_find_def InterpolableLUT_find_def
    InterpolateLUT_find_nearest_indexes_eq InterpolateLUT_interpolated_y_values_at_x_eq
    InterpolateLUT_final_interpolation_eq InterpolateLUT_def InterpolableLUT_def ..

section \<open>Queries at grid points\<close>



lemma lerp_at_lower [simp]: "lerp x0 y0 x1 y1 x0 = y0"
  by (simp add: lerp_def)









section \<open>Monotonicity in \<open>x_input\<close>\<close>










end
